theory Spec2Isabelle
  imports Main
begin

section \<open>Synchronising UW Groups membership into local groups\<close>

text \<open>
  A shallow embedding of \<^verbatim>\<open>groups_sync.py\<close>. The program talks to three outside
  parties: the Groups Web Service (one HTTPS GET per group), \<^verbatim>\<open>getent\<close> (one run per
  local group) and \<^verbatim>\<open>gpasswd\<close> (one run per member to add or remove). They are gathered
  in a \<open>world\<close> record of functions over a state \<open>'s\<close> that stands for everything
  outside the program (the local group database, the network); each call takes the state
  and returns the new one. Every exception of the source is a value \<open>Inl e\<close>.

  Strings are \<open>string\<close>: Python's \<open>str\<close> restricted to the code points below 256.
\<close>

subsection \<open>Exceptions\<close>

datatype error
  = KeyError string   \<comment> \<open>a missing dictionary key\<close>
  | TypeError         \<comment> \<open>subscripting or iterating a value of the wrong type\<close>
  | IndexError        \<comment> \<open>list index out of range\<close>
  | LibraryError string  \<comment> \<open>raised inside \<^verbatim>\<open>requests\<close>, \<^verbatim>\<open>r.json()\<close> or \<^verbatim>\<open>subprocess.run\<close>\<close>
  | Exception string  \<comment> \<open>\<^verbatim>\<open>raise Exception(r.stderr)\<close>\<close>

subsection \<open>Python string operations\<close>

text \<open>\<^verbatim>\<open>str.isspace\<close> on one character, for the code points below 256.\<close>

definition isspace :: "char \<Rightarrow> bool" where
  "isspace c = (let n = (of_char c :: nat) in
     (9 \<le> n \<and> n \<le> 13) \<or> (28 \<le> n \<and> n \<le> 32) \<or> n = 133 \<or> n = 160)"

text \<open>\<^verbatim>\<open>s.strip()\<close>: drops the white space at both ends.\<close>

definition str_strip :: "string \<Rightarrow> string" where
  "str_strip s = rev (dropWhile isspace (rev (dropWhile isspace s)))"

text \<open>
  \<^verbatim>\<open>s.split(sep)\<close> for a one-character separator: the pieces between the separators,
  empty pieces kept, so that the empty string gives one empty piece.
\<close>

fun str_split :: "char \<Rightarrow> string \<Rightarrow> string list" where
  "str_split sep [] = [[]]"
| "str_split sep (c # cs) =
     (if c = sep then [] # str_split sep cs
      else (case str_split sep cs of
              [] \<Rightarrow> [[c]]
            | p # ps \<Rightarrow> (c # p) # ps))"

text \<open>\<^verbatim>\<open>xs[i]\<close> for an index that is not negative.\<close>

definition index :: "'a list \<Rightarrow> nat \<Rightarrow> error + 'a" where
  "index xs i = (if i < length xs then Inr (xs ! i) else Inl IndexError)"

subsection \<open>The regular expression of personal NetIDs\<close>

text \<open>
  \<^verbatim>\<open>re.match("^[a-z][a-z0-9]{0,7}$", s)\<close>, as Python matches it: the match starts at the
  beginning of \<open>s\<close>; \<^verbatim>\<open>[a-z]\<close> and \<^verbatim>\<open>[a-z0-9]\<close> take one character each; \<^verbatim>\<open>{0,7}\<close>
  repeats up to seven times, backtracking; and \<^verbatim>\<open>$\<close> (no \<^verbatim>\<open>MULTILINE\<close> flag) matches at
  the end of the string and also just before a newline that is the last character.
\<close>

definition lower_az :: "char \<Rightarrow> bool" where
  "lower_az c = (let n = (of_char c :: nat) in 97 \<le> n \<and> n \<le> 122)"

definition digit_09 :: "char \<Rightarrow> bool" where
  "digit_09 c = (let n = (of_char c :: nat) in 48 \<le> n \<and> n \<le> 57)"

definition lower_az09 :: "char \<Rightarrow> bool" where
  "lower_az09 c = (lower_az c \<or> digit_09 c)"

definition dollar :: "string \<Rightarrow> bool" where
  "dollar rest = (rest = [] \<or> rest = [CHR 0x0A])"

text \<open>\<^verbatim>\<open>[a-z0-9]{0,n}$\<close> on the rest of the string.\<close>

fun repeat_az09_dollar :: "nat \<Rightarrow> string \<Rightarrow> bool" where
  "repeat_az09_dollar 0 rest = dollar rest"
| "repeat_az09_dollar (Suc n) rest =
     (case rest of
        [] \<Rightarrow> dollar rest
      | c # cs \<Rightarrow> (lower_az09 c \<and> repeat_az09_dollar n cs) \<or> dollar rest)"

definition re_match_netid :: "string \<Rightarrow> bool" where
  "re_match_netid s =
     (case s of [] \<Rightarrow> False | c # cs \<Rightarrow> lower_az c \<and> repeat_az09_dollar 7 cs)"

subsection \<open>JSON values and the Python operations on them\<close>

text \<open>What \<^verbatim>\<open>r.json()\<close> returns: a dictionary is its list of items, keys distinct.\<close>

datatype json
  = JNull
  | JBool bool
  | JNum int
  | JStr string
  | JArr "json list"
  | JObj "(string \<times> json) list"

text \<open>\<^verbatim>\<open>v[key]\<close> with a string key: only a dictionary can be subscripted so.\<close>

fun getitem :: "json \<Rightarrow> string \<Rightarrow> error + json" where
  "getitem (JObj kvs) key =
     (case map_of kvs key of None \<Rightarrow> Inl (KeyError key) | Some v \<Rightarrow> Inr v)"
| "getitem v key = Inl TypeError"

text \<open>
  \<^verbatim>\<open>for member in v\<close>: a list gives its elements, a dictionary its keys, a string its
  characters; nothing else can be iterated.
\<close>

fun iterate :: "json \<Rightarrow> error + json list" where
  "iterate (JArr xs) = Inr xs"
| "iterate (JObj kvs) = Inr (map (\<lambda>kv. JStr (fst kv)) kvs)"
| "iterate (JStr s) = Inr (map (\<lambda>c. JStr [c]) s)"
| "iterate v = Inl TypeError"

subsection \<open>The outside world\<close>

record completed_process =
  returncode :: int
  stdout :: string
  stderr :: string

text \<open>
  \<open>requests_get w url verify cert s\<close> is \<^verbatim>\<open>requests.get(url, verify=..., cert=...)\<close>
  followed by \<^verbatim>\<open>r.json()\<close>; \<open>subprocess_run w argv s\<close> is
  \<^verbatim>\<open>subprocess.run(argv, capture_output=True, text=True)\<close>. Either may raise.
\<close>

record 's world =
  requests_get :: "string \<Rightarrow> string \<Rightarrow> string \<times> string \<Rightarrow> 's \<Rightarrow> (error + json) \<times> 's"
  subprocess_run :: "string list \<Rightarrow> 's \<Rightarrow> (error + completed_process) \<times> 's"

record config =
  gws_base_url :: string
  gws_ca_cert :: string
  gws_client_cert :: string
  gws_client_key :: string
  group_map :: "(string \<times> string) list"

subsection \<open>\<^verbatim>\<open>get_uw_group_members\<close>\<close>

text \<open>
  The loop over \<^verbatim>\<open>r.json()["data"]\<close>: an entry whose \<^verbatim>\<open>type\<close> is \<^verbatim>\<open>"uwnetid"\<close> and whose
  \<^verbatim>\<open>id\<close> matches is appended; \<^verbatim>\<open>re.match\<close> on a value that is no string raises.
\<close>

fun collect_members :: "json list \<Rightarrow> string list \<Rightarrow> error + string list" where
  "collect_members [] group_members = Inr group_members"
| "collect_members (member # rest) group_members =
     (case getitem member ''type'' of
        Inl e \<Rightarrow> Inl e
      | Inr t \<Rightarrow>
          if t = JStr ''uwnetid'' then
            (case getitem member ''id'' of
               Inl e \<Rightarrow> Inl e
             | Inr (JStr i) \<Rightarrow>
                 if re_match_netid i then collect_members rest (group_members @ [i])
                 else collect_members rest group_members
             | Inr _ \<Rightarrow> Inl TypeError)
          else collect_members rest group_members)"

definition parse_members :: "json \<Rightarrow> error + string list" where
  "parse_members body =
     (case getitem body ''data'' of
        Inl e \<Rightarrow> Inl e
      | Inr d \<Rightarrow>
          (case iterate d of
             Inl e \<Rightarrow> Inl e
           | Inr members \<Rightarrow> collect_members members []))"

definition get_uw_group_members ::
    "'s world \<Rightarrow> string \<Rightarrow> string \<Rightarrow> string \<Rightarrow> string \<Rightarrow> string \<Rightarrow> 's
      \<Rightarrow> (error + string list) \<times> 's" where
  "get_uw_group_members w base_url ca_cert client_cert client_key uw_group s =
     (case requests_get w (base_url @ ''/group/'' @ uw_group @ ''/member'')
             ca_cert (client_cert, client_key) s of
        (Inl e, s') \<Rightarrow> (Inl e, s')
      | (Inr body, s') \<Rightarrow> (parse_members body, s'))"

subsection \<open>\<^verbatim>\<open>get_local_group_members\<close>\<close>

definition parse_group_record :: "string \<Rightarrow> error + string list" where
  "parse_group_record out =
     (case index (str_split (CHR '':'') (str_strip out)) 3 of
        Inl e \<Rightarrow> Inl e
      | Inr field \<Rightarrow> Inr (str_split (CHR '','') field))"

definition get_local_group_members ::
    "'s world \<Rightarrow> string \<Rightarrow> 's \<Rightarrow> (error + string list) \<times> 's" where
  "get_local_group_members w local_group s =
     (case subprocess_run w [''getent'', ''group'', local_group] s of
        (Inl e, s') \<Rightarrow> (Inl e, s')
      | (Inr r, s') \<Rightarrow> (parse_group_record (stdout r), s'))"

subsection \<open>\<^verbatim>\<open>add_local_group_member\<close> and \<^verbatim>\<open>remove_local_group_member\<close>\<close>

definition add_local_group_member ::
    "'s world \<Rightarrow> string \<Rightarrow> string \<Rightarrow> 's \<Rightarrow> (error + bool) \<times> 's" where
  "add_local_group_member w local_group member s =
     (case subprocess_run w [''gpasswd'', ''-a'', member, local_group] s of
        (Inl e, s') \<Rightarrow> (Inl e, s')
      | (Inr r, s') \<Rightarrow>
          (if returncode r = 0 then Inr True else Inl (Exception (stderr r)), s'))"

definition remove_local_group_member ::
    "'s world \<Rightarrow> string \<Rightarrow> string \<Rightarrow> 's \<Rightarrow> (error + bool) \<times> 's" where
  "remove_local_group_member w local_group member s =
     (case subprocess_run w [''gpasswd'', ''-d'', member, local_group] s of
        (Inl e, s') \<Rightarrow> (Inl e, s')
      | (Inr r, s') \<Rightarrow>
          (if returncode r = 0 then Inr True else Inl (Exception (stderr r)), s'))"

subsection \<open>\<^verbatim>\<open>main\<close>\<close>

text \<open>
  What a run does that can be seen from outside, in the order it happens: each call of
  \<^verbatim>\<open>add_local_group_member(local_group, member)\<close> and of
  \<^verbatim>\<open>remove_local_group_member(local_group, member)\<close> with its outcome (\<open>None\<close> when the call
  returned, \<open>Some e\<close> when it raised \<open>e\<close>), and each line printed. A printed line is kept
  as its parts: the \<^verbatim>\<open>FATAL:\<close> line with the exception, the \<^verbatim>\<open>ERROR:\<close> lines with the
  member, the local group and the exception, the summary line with both groups and both
  counts.
\<close>

datatype event
  = Add_member string string "error option"
  | Remove_member string string "error option"
  | Print_fatal error
  | Print_error_adding string string error
  | Print_error_removing string string error
  | Print_summary string string nat nat

text \<open>
  The \<^verbatim>\<open>try\<close> block of \<^verbatim>\<open>main\<close>: both lists, or the first exception.
\<close>

definition retrieve_members ::
    "'s world \<Rightarrow> config \<Rightarrow> string \<Rightarrow> string \<Rightarrow> 's
      \<Rightarrow> (error + string list \<times> string list) \<times> 's" where
  "retrieve_members w cfg uw_group local_group s =
     (case get_uw_group_members w (gws_base_url cfg) (gws_ca_cert cfg)
             (gws_client_cert cfg) (gws_client_key cfg) uw_group s of
        (Inl e, s1) \<Rightarrow> (Inl e, s1)
      | (Inr uw_group_member_list, s1) \<Rightarrow>
          (case get_local_group_members w local_group s1 of
             (Inl e, s2) \<Rightarrow> (Inl e, s2)
           | (Inr local_group_member_list, s2) \<Rightarrow>
               (Inr (uw_group_member_list, local_group_member_list), s2)))"

text \<open>
  The loop \<^verbatim>\<open>for member in uw_group_member_list\<close>: the events, the new
  \<^verbatim>\<open>add_count\<close> and the new state.
\<close>

fun add_loop ::
    "'s world \<Rightarrow> string \<Rightarrow> string list \<Rightarrow> string list \<Rightarrow> nat \<Rightarrow> 's
      \<Rightarrow> event list \<times> nat \<times> 's" where
  "add_loop w local_group local_group_member_list [] add_count s = ([], add_count, s)"
| "add_loop w local_group local_group_member_list (member # rest) add_count s =
     (if member \<notin> set local_group_member_list then
        (case add_local_group_member w local_group member s of
           (Inr _, s') \<Rightarrow>
             (case add_loop w local_group local_group_member_list rest (add_count + 1) s' of
                (evs, n, s'') \<Rightarrow> (Add_member local_group member None # evs, n, s''))
         | (Inl e, s') \<Rightarrow>
             (case add_loop w local_group local_group_member_list rest add_count s' of
                (evs, n, s'') \<Rightarrow>
                  (Add_member local_group member (Some e)
                     # Print_error_adding member local_group e # evs, n, s'')))
      else add_loop w local_group local_group_member_list rest add_count s)"

text \<open>The loop \<^verbatim>\<open>for member in local_group_member_list\<close>.\<close>

fun remove_loop ::
    "'s world \<Rightarrow> string \<Rightarrow> string list \<Rightarrow> string list \<Rightarrow> nat \<Rightarrow> 's
      \<Rightarrow> event list \<times> nat \<times> 's" where
  "remove_loop w local_group uw_group_member_list [] remove_count s = ([], remove_count, s)"
| "remove_loop w local_group uw_group_member_list (member # rest) remove_count s =
     (if member \<notin> set uw_group_member_list then
        (case remove_local_group_member w local_group member s of
           (Inr _, s') \<Rightarrow>
             (case remove_loop w local_group uw_group_member_list rest (remove_count + 1) s' of
                (evs, n, s'') \<Rightarrow> (Remove_member local_group member None # evs, n, s''))
         | (Inl e, s') \<Rightarrow>
             (case remove_loop w local_group uw_group_member_list rest remove_count s' of
                (evs, n, s'') \<Rightarrow>
                  (Remove_member local_group member (Some e)
                     # Print_error_removing member local_group e # evs, n, s'')))
      else remove_loop w local_group uw_group_member_list rest remove_count s)"

text \<open>
  The rest of the body of the loop over \<^verbatim>\<open>group_map.items()\<close>, once both lists are
  there: the comparison of the two sets, the two loops and the summary line.
\<close>

definition sync_group ::
    "'s world \<Rightarrow> string \<Rightarrow> string \<Rightarrow> string list \<Rightarrow> string list \<Rightarrow> 's
      \<Rightarrow> event list \<times> 's" where
  "sync_group w uw_group local_group uw_group_member_list local_group_member_list s =
     (if set uw_group_member_list \<noteq> set local_group_member_list then
        (case add_loop w local_group local_group_member_list uw_group_member_list 0 s of
           (adds, add_count, s1) \<Rightarrow>
             (case remove_loop w local_group uw_group_member_list
                     local_group_member_list 0 s1 of
                (removes, remove_count, s2) \<Rightarrow>
                  (adds @ removes
                     @ [Print_summary uw_group local_group add_count remove_count], s2)))
      else ([Print_summary uw_group local_group 0 0], s))"

text \<open>
  A run ends with the process's exit status: 1 after \<^verbatim>\<open>sys.exit(1)\<close>, 0 when
  \<^verbatim>\<open>main\<close> returns.
\<close>

record 's run =
  events :: "event list"
  exit_status :: int
  final :: 's

fun main_loop :: "'s world \<Rightarrow> config \<Rightarrow> (string \<times> string) list \<Rightarrow> 's \<Rightarrow> 's run" where
  "main_loop w cfg [] s = \<lparr>events = [], exit_status = 0, final = s\<rparr>"
| "main_loop w cfg ((uw_group, local_group) # rest) s =
     (case retrieve_members w cfg uw_group local_group s of
        (Inl e, s1) \<Rightarrow> \<lparr>events = [Print_fatal e], exit_status = 1, final = s1\<rparr>
      | (Inr (uw_group_member_list, local_group_member_list), s1) \<Rightarrow>
          (case sync_group w uw_group local_group uw_group_member_list
                  local_group_member_list s1 of
             (evs, s2) \<Rightarrow>
               (let r = main_loop w cfg rest s2 in r\<lparr>events := evs @ events r\<rparr>)))"

definition main :: "'s world \<Rightarrow> config \<Rightarrow> 's \<Rightarrow> 's run" where
  "main w cfg s = main_loop w cfg (group_map cfg) s"

section \<open>Reading a run\<close>

text \<open>
  The members for which \<^verbatim>\<open>add_local_group_member\<close> was called, in call order, and
  those for which \<^verbatim>\<open>remove_local_group_member\<close> was called.
\<close>

fun added_members :: "event list \<Rightarrow> string list" where
  "added_members [] = []"
| "added_members (Add_member g m r # evs) = m # added_members evs"
| "added_members (ev # evs) = added_members evs"

fun removed_members :: "event list \<Rightarrow> string list" where
  "removed_members [] = []"
| "removed_members (Remove_member g m r # evs) = m # removed_members evs"
| "removed_members (ev # evs) = removed_members evs"






text \<open>The mappings for which the summary line was printed.\<close>

fun summary_groups :: "event list \<Rightarrow> (string \<times> string) list" where
  "summary_groups [] = []"
| "summary_groups (Print_summary u g a r # evs) = (u, g) # summary_groups evs"
| "summary_groups (ev # evs) = summary_groups evs"

section \<open>What the specification calls a member identifier\<close>

text \<open>
  A lower-case letter followed by at most seven lower-case letters or digits, and nothing
  else: the shape of a personal NetID in the words of the specification, to compare
  \<open>re_match_netid\<close> with.
\<close>

definition spec_netid_shape :: "string \<Rightarrow> bool" where
  "spec_netid_shape s =
     (case s of
        [] \<Rightarrow> False
      | c # cs \<Rightarrow> lower_az c \<and> length cs \<le> 7 \<and> list_all lower_az09 cs)"

text \<open>
  An entry of the expected shape \<^verbatim>\<open>{"type": t, "id": i}\<close>, a response whose
  \<^verbatim>\<open>data\<close> array holds such entries, and the test that \<^verbatim>\<open>get_uw_group_members\<close> applies
  to one.
\<close>

definition member_entry :: "string \<times> string \<Rightarrow> json" where
  "member_entry e = JObj [(''type'', JStr (fst e)), (''id'', JStr (snd e))]"

definition data_of :: "(string \<times> string) list \<Rightarrow> json" where
  "data_of entries = JObj [(''data'', JArr (map member_entry entries))]"


section \<open>A small world to run the program in\<close>

text \<open>
  Two remote groups, \<^verbatim>\<open>u_mygroup\<close> and \<^verbatim>\<open>u_admins\<close>, whose member resources answer
  with \<open>body\<close>; every other URL is unreachable. One local group \<^verbatim>\<open>mygroup\<close>; the state is its member list.
  \<^verbatim>\<open>getent\<close> prints its record and prints nothing, with status 2, for any other group;
  \<^verbatim>\<open>gpasswd -a\<close> appends a member but knows no user \<^verbatim>\<open>carol\<close>; \<^verbatim>\<open>gpasswd -d\<close> deletes a
  member and fails for a name that is not one.
\<close>

definition join :: "string \<Rightarrow> string list \<Rightarrow> string" where
  "join sep xs = (case xs of [] \<Rightarrow> [] | y # ys \<Rightarrow> y @ concat (map (\<lambda>z. sep @ z) ys))"

definition process :: "int \<Rightarrow> string \<Rightarrow> string \<Rightarrow> completed_process" where
  "process rc out err = \<lparr>returncode = rc, stdout = out, stderr = err\<rparr>"

definition small_world :: "json \<Rightarrow> string list world" where
  "small_world body =
     \<lparr>requests_get = (\<lambda>url verify cert s.
        (if url = ''https://gws/group/u_mygroup/member''
              \<or> url = ''https://gws/group/u_admins/member''
         then Inr body
         else Inl (LibraryError ''ConnectionError''), s)),
      subprocess_run = (\<lambda>argv s.
        if argv = [''getent'', ''group'', ''mygroup'']
        then (Inr (process 0 (''mygroup:x:1001:'' @ join '','' s @ [CHR 0x0A]) []), s)
        else if length argv = 4 \<and> take 2 argv = [''gpasswd'', ''-a'']
                \<and> argv ! 3 = ''mygroup''
        then (if argv ! 2 = ''carol''
              then (Inr (process 3 [] ''no such user''), s)
              else (Inr (process 0 [] []), s @ [argv ! 2]))
        else if length argv = 4 \<and> take 2 argv = [''gpasswd'', ''-d'']
                \<and> argv ! 3 = ''mygroup''
        then (if argv ! 2 \<in> set s
              then (Inr (process 0 [] []), removeAll (argv ! 2) s)
              else (Inr (process 3 [] ''not a member''), s))
        else (Inr (process 2 [] []), s))\<rparr>"

definition small_config :: "(string \<times> string) list \<Rightarrow> config" where
  "small_config gm =
     \<lparr>gws_base_url = ''https://gws'', gws_ca_cert = ''ca.pem'',
      gws_client_cert = ''cert.pem'', gws_client_key = ''key.pem'', group_map = gm\<rparr>"

section \<open>The two loops\<close>

text \<open>
  The first loop calls \<^verbatim>\<open>add_local_group_member\<close> for the remote members that are not
  local ones, in order, and never \<^verbatim>\<open>remove_local_group_member\<close>; the second loop is its
  mirror image.
\<close>

lemma add_loop_calls:
  "add_loop w lg loc uw n s = (evs, n', s') \<Longrightarrow>
     added_members evs = filter (\<lambda>m. m \<notin> set loc) uw \<and> removed_members evs = []"
  by (induction uw arbitrary: n s evs n' s') (auto split: prod.splits sum.splits if_splits)

lemma remove_loop_calls:
  "remove_loop w lg uw loc n s = (evs, n', s') \<Longrightarrow>
     removed_members evs = filter (\<lambda>m. m \<notin> set uw) loc \<and> added_members evs = []"
  by (induction loc arbitrary: n s evs n' s') (auto split: prod.splits sum.splits if_splits)

lemma added_members_append:
  "added_members (xs @ ys) = added_members xs @ added_members ys"
  by (induction xs rule: added_members.induct) auto

lemma removed_members_append:
  "removed_members (xs @ ys) = removed_members xs @ removed_members ys"
  by (induction xs rule: removed_members.induct) auto



text \<open>The two ways through \<open>sync_group\<close>.\<close>

lemma sync_group_cases:
  obtains (equal) "set uw = set loc"
      "sync_group w u lg uw loc s = ([Print_summary u lg 0 0], s)"
  | (differ) adds add_count s1 removes remove_count s2 where "set uw \<noteq> set loc"
      "add_loop w lg loc uw 0 s = (adds, add_count, s1)"
      "remove_loop w lg uw loc 0 s1 = (removes, remove_count, s2)"
      "sync_group w u lg uw loc s
         = (adds @ removes @ [Print_summary u lg add_count remove_count], s2)"
proof (cases "set uw = set loc")
  case True
  then show ?thesis using equal by (simp add: sync_group_def)
next
  case False
  obtain a n s1 where A: "add_loop w lg loc uw 0 s = (a, n, s1)"
    by (cases "add_loop w lg loc uw 0 s") auto
  obtain r k s2 where R: "remove_loop w lg uw loc 0 s1 = (r, k, s2)"
    by (cases "remove_loop w lg uw loc 0 s1") auto
  show ?thesis using differ[OF False A R] False A R by (simp add: sync_group_def)
qed

lemma sync_group_added:
  "added_members (fst (sync_group w u lg uw loc s)) = filter (\<lambda>m. m \<notin> set loc) uw"
proof (cases rule: sync_group_cases[of uw loc w u lg s])
  case equal
  have "filter (\<lambda>m. m \<notin> set loc) uw = []"
    using equal(1) by (auto simp: filter_empty_conv)
  then show ?thesis using equal(2) by simp
next
  case (differ adds add_count s1 removes remove_count s2)
  show ?thesis
    using add_loop_calls[OF differ(2)] remove_loop_calls[OF differ(3)]
    by (simp add: differ(4) added_members_append)
qed

lemma sync_group_removed:
  "removed_members (fst (sync_group w u lg uw loc s)) = filter (\<lambda>m. m \<notin> set uw) loc"
proof (cases rule: sync_group_cases[of uw loc w u lg s])
  case equal
  have "filter (\<lambda>m. m \<notin> set uw) loc = []"
    using equal(1) by (auto simp: filter_empty_conv)
  then show ?thesis using equal(2) by simp
next
  case (differ adds add_count s1 removes remove_count s2)
  show ?thesis
    using add_loop_calls[OF differ(2)] remove_loop_calls[OF differ(3)]
    by (simp add: differ(4) removed_members_append)
qed

section \<open>The membership delta\<close>

text \<open>
  C6: for every pair of member lists, the members for which AddMember is invoked and
  those for which RemoveMember is invoked are disjoint, and the local set with the former
  added and the latter removed is the remote set. The calls are the same whether or not
  a mutation fails, so no assumption on the outcomes is needed.
\<close>

theorem delta_add_remove:
  "set (added_members (fst (sync_group w u lg uw loc s)))
     \<inter> set (removed_members (fst (sync_group w u lg uw loc s))) = {}
   \<and> (set loc \<union> set (added_members (fst (sync_group w u lg uw loc s))))
        - set (removed_members (fst (sync_group w u lg uw loc s))) = set uw"
  unfolding sync_group_added sync_group_removed by auto

theorem delta_add_remove_example:
  "fst (sync_group (small_world JNull) ''u_mygroup'' ''mygroup''
          [''alice'', ''carol''] [''alice'', ''bob''] [''alice'', ''bob''])
     = [Add_member ''mygroup'' ''carol'' (Some (Exception ''no such user'')),
        Print_error_adding ''carol'' ''mygroup'' (Exception ''no such user''),
        Remove_member ''mygroup'' ''bob'' None,
        Print_summary ''u_mygroup'' ''mygroup'' 0 1]
   \<and> (set [''alice'', ''bob''] \<union> set [''carol'']) - set [''bob'']
       = set [''alice'', ''carol'']"
proof -
  have e: "fst (sync_group (small_world JNull) ''u_mygroup'' ''mygroup''
          [''alice'', ''carol''] [''alice'', ''bob''] [''alice'', ''bob''])
     = [Add_member ''mygroup'' ''carol'' (Some (Exception ''no such user'')),
        Print_error_adding ''carol'' ''mygroup'' (Exception ''no such user''),
        Remove_member ''mygroup'' ''bob'' None,
        Print_summary ''u_mygroup'' ''mygroup'' 0 1]"
    by code_simp
  show ?thesis
    using delta_add_remove[of "small_world JNull" "''u_mygroup''" "''mygroup''"
        "[''alice'', ''carol'']" "[''alice'', ''bob'']" "[''alice'', ''bob'']"]
    unfolding e by simp
qed

section \<open>A mutation that fails\<close>



section \<open>The mutator\<close>



section \<open>The remote membership fetcher\<close>




text \<open>On any response at all, every id that is returned has passed \<^verbatim>\<open>re.match\<close>.\<close>

lemma collect_members_matched:
  "collect_members ms acc = Inr r \<Longrightarrow> \<forall>i\<in>set r. i \<in> set acc \<or> re_match_netid i"
proof (induction ms arbitrary: acc)
  case Nil
  then show ?case by simp
next
  case (Cons m ms)
  then show ?case
    by (fastforce split: sum.splits json.splits if_splits)
qed

lemma parse_members_matched:
  "parse_members body = Inr r \<Longrightarrow> i \<in> set r \<Longrightarrow> re_match_netid i"
  using collect_members_matched[of _ "[]" r]
  by (auto simp: parse_members_def split: sum.splits)

lemma re_match_netid_Nil: "\<not> re_match_netid []"
  by (simp add: re_match_netid_def)

lemma get_uw_group_members_matched:
  "get_uw_group_members w b ca c k u s = (Inr uw, s1) \<Longrightarrow> i \<in> set uw \<Longrightarrow> re_match_netid i"
  by (auto simp: get_uw_group_members_def split: prod.splits sum.splits
      dest: parse_members_matched)

text \<open>
  What \<^verbatim>\<open>re.match\<close> accepts: the identifiers of the specification, and each of them
  followed by one newline.
\<close>

lemma newline_not_az09: "\<not> lower_az09 (CHR 0x0A)"
  by (simp add: lower_az09_def lower_az_def digit_09_def)

lemma repeat_az09_dollar_iff:
  "repeat_az09_dollar n cs \<longleftrightarrow>
     (length cs \<le> n \<and> list_all lower_az09 cs)
     \<or> (\<exists>t. cs = t @ [CHR 0x0A] \<and> length t \<le> n \<and> list_all lower_az09 t)"
proof (induction n arbitrary: cs)
  case 0
  show ?case by (auto simp: dollar_def)
next
  case (Suc n)
  show ?case
  proof (cases cs)
    case Nil
    then show ?thesis by (simp add: dollar_def)
  next
    case (Cons c cs')
    have "(\<exists>t. c # cs' = t @ [CHR 0x0A] \<and> length t \<le> Suc n \<and> list_all lower_az09 t)
        \<longleftrightarrow> (c = CHR 0x0A \<and> cs' = [])
           \<or> (lower_az09 c \<and> (\<exists>t. cs' = t @ [CHR 0x0A] \<and> length t \<le> n \<and> list_all lower_az09 t))"
      (is "?L \<longleftrightarrow> ?R")
    proof
      assume ?L
      then obtain t where t: "c # cs' = t @ [CHR 0x0A]" "length t \<le> Suc n" "list_all lower_az09 t"
        by blast
      show ?R
      proof (cases t)
        case Nil
        with t show ?thesis by simp
      next
        case (Cons d t')
        with t show ?thesis by auto
      qed
    next
      assume ?R
      then show ?L
      proof
        assume "c = CHR 0x0A \<and> cs' = []"
        then have "c # cs' = [] @ [CHR 0x0A] \<and> length ([]::string) \<le> Suc n \<and> list_all lower_az09 []"
          by simp
        then show ?L by blast
      next
        assume "lower_az09 c \<and> (\<exists>t. cs' = t @ [CHR 0x0A] \<and> length t \<le> n \<and> list_all lower_az09 t)"
        then obtain t where "lower_az09 c" "cs' = t @ [CHR 0x0A]" "length t \<le> n" "list_all lower_az09 t"
          by blast
        then have "c # cs' = (c # t) @ [CHR 0x0A] \<and> length (c # t) \<le> Suc n \<and> list_all lower_az09 (c # t)"
          by simp
        then show ?L by blast
      qed
    qed
    then show ?thesis
      using Cons Suc.IH[of cs'] by (auto simp: dollar_def)
  qed
qed

lemma re_match_netid_iff:
  "re_match_netid s \<longleftrightarrow>
     spec_netid_shape s \<or> (\<exists>t. s = t @ [CHR 0x0A] \<and> spec_netid_shape t)"
proof (cases s)
  case Nil
  then show ?thesis by (simp add: re_match_netid_def spec_netid_shape_def)
next
  case (Cons c cs)
  have "(\<exists>t. c # cs = t @ [CHR 0x0A] \<and> spec_netid_shape t)
      \<longleftrightarrow> lower_az c \<and> (\<exists>t. cs = t @ [CHR 0x0A] \<and> length t \<le> 7 \<and> list_all lower_az09 t)"
    (is "?L \<longleftrightarrow> ?R")
  proof
    assume ?L
    then obtain t where t: "c # cs = t @ [CHR 0x0A]" "spec_netid_shape t" by blast
    then obtain d t' where "t = d # t'" by (cases t) (auto simp: spec_netid_shape_def)
    with t show ?R by (auto simp: spec_netid_shape_def)
  next
    assume ?R
    then obtain t where "lower_az c" "cs = t @ [CHR 0x0A]" "length t \<le> 7" "list_all lower_az09 t"
      by blast
    then have "c # cs = (c # t) @ [CHR 0x0A] \<and> spec_netid_shape (c # t)"
      by (simp add: spec_netid_shape_def)
    then show ?L by blast
  qed
  then show ?thesis
    using Cons by (auto simp: re_match_netid_def spec_netid_shape_def repeat_az09_dollar_iff)
qed

text \<open>
  C3: an entry is to be included exactly when its type is \<^verbatim>\<open>uwnetid\<close> and its id is a
  lower-case letter followed by at most seven lower-case letters or digits, an id with a
  trailing newline being excluded. The entry \<^verbatim>\<open>{"type": "uwnetid", "id": "abc\n"}\<close> is
  included although its id has not that shape.
\<close>

theorem trailing_newline_is_included:
  "parse_members (data_of [(''uwnetid'', ''abc'' @ [CHR 0x0A])]) = Inr [''abc'' @ [CHR 0x0A]]
   \<and> \<not> spec_netid_shape (''abc'' @ [CHR 0x0A])"
  by code_simp




section \<open>The local membership reader\<close>

text \<open>
  C1: a record with an empty member field is to give the empty member set. For the record
  \<^verbatim>\<open>mygroup:x:1001:\<close> the reader returns the one-element list that holds the empty
  string.
\<close>

theorem empty_member_field_gives_empty_name:
  "get_local_group_members (small_world JNull) ''mygroup'' [] = (Inr [[]], [])
   \<and> parse_group_record (''mygroup:x:1001:'' @ [CHR 0x0A]) = Inr [[]]"
  by code_simp

section \<open>The loop over the mappings\<close>

text \<open>One turn of the loop, when retrieving the members fails and when it succeeds.\<close>

lemma main_loop_fail:
  "retrieve_members w cfg u lg s = (Inl e, s1) \<Longrightarrow>
     main_loop w cfg ((u, lg) # rest) s = \<lparr>events = [Print_fatal e], exit_status = 1, final = s1\<rparr>"
  by simp

lemma main_loop_ok:
  "retrieve_members w cfg u lg s = (Inr (uw, loc), s1) \<Longrightarrow>
   sync_group w u lg uw loc s1 = (evs, s2) \<Longrightarrow>
     main_loop w cfg ((u, lg) # rest) s
       = (main_loop w cfg rest s2)\<lparr>events := evs @ events (main_loop w cfg rest s2)\<rparr>"
  by (simp add: Let_def)

lemma retrieve_members_cases:
  obtains (fail) e s1 where "retrieve_members w cfg u lg s = (Inl e, s1)"
  | (ok) uw loc s1 evs s2 where "retrieve_members w cfg u lg s = (Inr (uw, loc), s1)"
      "sync_group w u lg uw loc s1 = (evs, s2)"
proof (cases "retrieve_members w cfg u lg s")
  case (Pair res s1)
  show ?thesis
  proof (cases res)
    case (Inl e)
    with Pair show ?thesis using fail by simp
  next
    case (Inr p)
    obtain uw loc where p: "p = (uw, loc)" by (cases p) auto
    obtain evs s2 where "sync_group w u lg uw loc s1 = (evs, s2)"
      by (cases "sync_group w u lg uw loc s1") auto
    with Pair Inr p show ?thesis using ok by simp
  qed
qed

text \<open>
  A run over \<open>pre @ post\<close> is the run over \<open>pre\<close>, followed by the run over
  \<open>post\<close> unless the first one has exited.
\<close>

lemma main_loop_append:
  "main_loop w cfg (pre @ post) s =
     (if exit_status (main_loop w cfg pre s) = 0
      then (main_loop w cfg post (final (main_loop w cfg pre s)))
             \<lparr>events := events (main_loop w cfg pre s)
                  @ events (main_loop w cfg post (final (main_loop w cfg pre s)))\<rparr>
      else main_loop w cfg pre s)"
proof (induction pre arbitrary: s)
  case Nil
  show ?case by simp
next
  case (Cons m pre)
  obtain u lg where m: "m = (u, lg)" by (cases m) auto
  show ?case
  proof (cases rule: retrieve_members_cases[of w cfg u lg s])
    case (fail e s1)
    show ?thesis unfolding m append_Cons main_loop_fail[OF fail] by simp
  next
    case (ok uw loc s1 evs s2)
    show ?thesis unfolding m append_Cons main_loop_ok[OF ok] Cons.IH[of s2] by simp
  qed
qed

lemma exit_status_0_or_1:
  "exit_status (main_loop w cfg maps s) = 0 \<or> exit_status (main_loop w cfg maps s) = 1"
proof (induction maps arbitrary: s)
  case Nil
  show ?case by simp
next
  case (Cons m maps)
  obtain u lg where m: "m = (u, lg)" by (cases m) auto
  show ?case
  proof (cases rule: retrieve_members_cases[of w cfg u lg s])
    case (fail e s1)
    show ?thesis unfolding m main_loop_fail[OF fail] by simp
  next
    case (ok uw loc s1 evs s2)
    show ?thesis unfolding m main_loop_ok[OF ok] using Cons.IH[of s2] by simp
  qed
qed

lemma abort_decomposition:
  "exit_status (main_loop w cfg maps s) = 1 \<Longrightarrow>
     \<exists>pre u lg post e s1. maps = pre @ (u, lg) # post
        \<and> exit_status (main_loop w cfg pre s) = 0
        \<and> retrieve_members w cfg u lg (final (main_loop w cfg pre s)) = (Inl e, s1)"
proof (induction maps arbitrary: s)
  case Nil
  then show ?case by simp
next
  case (Cons m maps)
  obtain u lg where m: "m = (u, lg)" by (cases m) auto
  show ?case
  proof (cases rule: retrieve_members_cases[of w cfg u lg s])
    case (fail e s1)
    have "m # maps = [] @ (u, lg) # maps \<and> exit_status (main_loop w cfg [] s) = 0
        \<and> retrieve_members w cfg u lg (final (main_loop w cfg [] s)) = (Inl e, s1)"
      using fail m by simp
    then show ?thesis by blast
  next
    case (ok uw loc s1 evs s2)
    have "exit_status (main_loop w cfg maps s2) = 1"
      using Cons.prems unfolding m main_loop_ok[OF ok] by simp
    from Cons.IH[OF this] obtain pre u' lg' post e s1' where
      d: "maps = pre @ (u', lg') # post" "exit_status (main_loop w cfg pre s2) = 0"
        "retrieve_members w cfg u' lg' (final (main_loop w cfg pre s2)) = (Inl e, s1')"
      by blast
    have "m # maps = ((u, lg) # pre) @ (u', lg') # post
        \<and> exit_status (main_loop w cfg ((u, lg) # pre) s) = 0
        \<and> retrieve_members w cfg u' lg' (final (main_loop w cfg ((u, lg) # pre) s)) = (Inl e, s1')"
      using d m unfolding main_loop_ok[OF ok] by simp
    then show ?thesis by blast
  qed
qed

text \<open>Every mapping that is synchronised prints one summary line, and nothing else does.\<close>

lemma summary_groups_append:
  "summary_groups (xs @ ys) = summary_groups xs @ summary_groups ys"
  by (induction xs rule: summary_groups.induct) auto

lemma add_loop_no_summary:
  "add_loop w lg loc uw n s = (evs, n', s') \<Longrightarrow> summary_groups evs = []"
  by (induction uw arbitrary: n s evs n' s') (auto split: prod.splits sum.splits if_splits)

lemma remove_loop_no_summary:
  "remove_loop w lg uw loc n s = (evs, n', s') \<Longrightarrow> summary_groups evs = []"
  by (induction loc arbitrary: n s evs n' s') (auto split: prod.splits sum.splits if_splits)

lemma sync_group_summary:
  "summary_groups (fst (sync_group w u lg uw loc s)) = [(u, lg)]"
proof (cases rule: sync_group_cases[of uw loc w u lg s])
  case equal
  then show ?thesis by simp
next
  case (differ adds add_count s1 removes remove_count s2)
  show ?thesis
    using add_loop_no_summary[OF differ(2)] remove_loop_no_summary[OF differ(3)]
    by (simp add: differ(4) summary_groups_append)
qed

lemma summaries_of_run:
  "summary_groups (events (main_loop w cfg maps s)) = maps
     \<longleftrightarrow> exit_status (main_loop w cfg maps s) = 0"
  "length (summary_groups (events (main_loop w cfg maps s))) \<le> length maps"
proof (induction maps arbitrary: s)
  case Nil
  { case 1 show ?case by simp }
  { case 2 show ?case by simp }
next
  case (Cons m maps)
  obtain u lg where m: "m = (u, lg)" by (cases m) auto
  { case 1
    show ?case
    proof (cases rule: retrieve_members_cases[of w cfg u lg s])
      case (fail e s1)
      show ?thesis unfolding m main_loop_fail[OF fail] by simp
    next
      case (ok uw loc s1 evs s2)
      have "summary_groups evs = [(u, lg)]" using sync_group_summary[of w u lg uw loc s1] ok(2) by simp
      then show ?thesis unfolding m main_loop_ok[OF ok] using Cons.IH(1)[of s2]
        by (simp add: summary_groups_append)
    qed }
  { case 2
    show ?case
    proof (cases rule: retrieve_members_cases[of w cfg u lg s])
      case (fail e s1)
      show ?thesis unfolding m main_loop_fail[OF fail] by simp
    next
      case (ok uw loc s1 evs s2)
      have "summary_groups evs = [(u, lg)]" using sync_group_summary[of w u lg uw loc s1] ok(2) by simp
      then show ?thesis unfolding m main_loop_ok[OF ok] using Cons.IH(2)[of s2]
        by (simp add: summary_groups_append)
    qed }
qed

subsection \<open>Failing to retrieve the members\<close>

text \<open>
  C2, as the claim states it: after a mapping whose members cannot be retrieved the Driver
  would go on with the next mapping. With \<^verbatim>\<open>u_gone\<close> unreachable, the run prints the
  \<^verbatim>\<open>FATAL:\<close> line and ends; the mapping after it, which a run of its own synchronises,
  is never looked at.
\<close>

theorem fetch_failure_does_not_continue:
  "main (small_world (data_of [(''uwnetid'', ''alice'')]))
      (small_config [(''u_gone'', ''mygroup''), (''u_mygroup'', ''mygroup'')]) [''bob'']
     = \<lparr>events = [Print_fatal (LibraryError ''ConnectionError'')],
        exit_status = 1, final = [''bob'']\<rparr>
   \<and> main (small_world (data_of [(''uwnetid'', ''alice'')]))
      (small_config [(''u_mygroup'', ''mygroup'')]) [''bob'']
     = \<lparr>events = [Add_member ''mygroup'' ''alice'' None,
          Remove_member ''mygroup'' ''bob'' None,
          Print_summary ''u_mygroup'' ''mygroup'' 1 1],
        exit_status = 0, final = [''alice'']\<rparr>"
  by code_simp

text \<open>
  C2, amended: for every mapping that the run reaches, if fetching the remote members or
  reading the local members fails, the Driver prints the \<^verbatim>\<open>FATAL:\<close> line, attempts no
  mutation for that mapping, and ends the run with exit status 1 without processing the
  mappings after it.
\<close>

theorem fetch_failure_aborts_run:
  assumes "exit_status (main_loop w cfg pre s) = 0"
    and "retrieve_members w cfg u lg (final (main_loop w cfg pre s)) = (Inl e, s1)"
  shows "main_loop w cfg (pre @ (u, lg) # rest) s
     = \<lparr>events = events (main_loop w cfg pre s) @ [Print_fatal e],
        exit_status = 1, final = s1\<rparr>"
  unfolding main_loop_append[of w cfg pre "(u, lg) # rest" s] main_loop_fail[OF assms(2)]
  using assms(1) by simp

theorem fetch_failure_aborts_run_example:
  "main_loop (small_world (data_of [(''uwnetid'', ''alice'')]))
      (small_config [(''u_mygroup'', ''mygroup''), (''u_admins'', ''nogroup''),
         (''u_gone'', ''mygroup'')])
      ([(''u_mygroup'', ''mygroup'')] @ (''u_admins'', ''nogroup'')
         # [(''u_gone'', ''mygroup'')])
      [''bob'']
     = \<lparr>events = [Add_member ''mygroup'' ''alice'' None,
          Remove_member ''mygroup'' ''bob'' None,
          Print_summary ''u_mygroup'' ''mygroup'' 1 1,
          Print_fatal IndexError],
        exit_status = 1, final = [''alice'']\<rparr>"
proof -
  let ?w = "small_world (data_of [(''uwnetid'', ''alice'')])"
  let ?c = "small_config [(''u_mygroup'', ''mygroup''), (''u_admins'', ''nogroup''),
         (''u_gone'', ''mygroup'')]"
  have p: "main_loop ?w ?c [(''u_mygroup'', ''mygroup'')] [''bob'']
     = \<lparr>events = [Add_member ''mygroup'' ''alice'' None,
          Remove_member ''mygroup'' ''bob'' None,
          Print_summary ''u_mygroup'' ''mygroup'' 1 1],
        exit_status = 0, final = [''alice'']\<rparr>"
    by code_simp
  have r: "retrieve_members ?w ?c ''u_admins'' ''nogroup'' [''alice'']
     = (Inl IndexError, [''alice''])"
    by code_simp
  show ?thesis
    using fetch_failure_aborts_run[of ?w ?c "[(''u_mygroup'', ''mygroup'')]"
        "[''bob'']" "''u_admins''" "''nogroup''" IndexError "[''alice'']"
        "[(''u_gone'', ''mygroup'')]"]
    unfolding p by (simp add: r)
qed

subsection \<open>The exit status\<close>

text \<open>
  C5: the exit status is 0 or 1. It is 1 exactly when retrieving the members fails for
  some mapping that the run reaches, all mappings before it having been synchronised; the
  run then ends with the \<^verbatim>\<open>FATAL:\<close> line, and the summary lines are those of the
  mappings before the failing one. It is 0 exactly when every mapping has its summary
  line; the outcomes of the member additions and removals play no part.
\<close>

theorem exit_status_of_run:
  "let r = main_loop w cfg maps s in
     (exit_status r = 0 \<or> exit_status r = 1)
     \<and> ((exit_status r = 1) =
          (\<exists>pre u lg post. maps = pre @ (u, lg) # post
             \<and> exit_status (main_loop w cfg pre s) = 0
             \<and> isl (fst (retrieve_members w cfg u lg (final (main_loop w cfg pre s))))
             \<and> events r = events (main_loop w cfg pre s)
                  @ [Print_fatal (projl (fst (retrieve_members w cfg u lg
                                                (final (main_loop w cfg pre s)))))]
             \<and> summary_groups (events r) = pre))
     \<and> ((exit_status r = 0) = (summary_groups (events r) = maps))"
proof -
  let ?r = "main_loop w cfg maps s"
  let ?P = "\<lambda>pre u lg post. maps = pre @ (u, lg) # post
             \<and> exit_status (main_loop w cfg pre s) = 0
             \<and> isl (fst (retrieve_members w cfg u lg (final (main_loop w cfg pre s))))
             \<and> events ?r = events (main_loop w cfg pre s)
                  @ [Print_fatal (projl (fst (retrieve_members w cfg u lg
                                                (final (main_loop w cfg pre s)))))]
             \<and> summary_groups (events ?r) = pre"
  have a: "exit_status ?r = 0 \<or> exit_status ?r = 1" by (rule exit_status_0_or_1)
  have b: "(exit_status ?r = 1) = (\<exists>pre u lg post. ?P pre u lg post)"
  proof
    assume "exit_status ?r = 1"
    from abort_decomposition[OF this] obtain pre u lg post e s1 where
      d: "maps = pre @ (u, lg) # post" "exit_status (main_loop w cfg pre s) = 0"
         "retrieve_members w cfg u lg (final (main_loop w cfg pre s)) = (Inl e, s1)"
      by blast
    have r: "?r = \<lparr>events = events (main_loop w cfg pre s) @ [Print_fatal e],
        exit_status = 1, final = s1\<rparr>"
      unfolding d(1) main_loop_append[of w cfg pre "(u, lg) # post" s] main_loop_fail[OF d(3)]
      using d(2) by simp
    have "summary_groups (events (main_loop w cfg pre s)) = pre"
      using summaries_of_run(1)[of w cfg pre s] d(2) by simp
    then have "?P pre u lg post"
      using d r by (simp add: summary_groups_append)
    then show "\<exists>pre u lg post. ?P pre u lg post" by blast
  next
    assume "\<exists>pre u lg post. ?P pre u lg post"
    then obtain pre u lg post where p: "?P pre u lg post" by blast
    then obtain e s1 where
      f: "retrieve_members w cfg u lg (final (main_loop w cfg pre s)) = (Inl e, s1)"
      by (cases "retrieve_members w cfg u lg (final (main_loop w cfg pre s))")
        (auto simp: isl_def)
    have "?r = \<lparr>events = events (main_loop w cfg pre s) @ [Print_fatal e],
        exit_status = 1, final = s1\<rparr>"
      using p main_loop_append[of w cfg pre "(u, lg) # post" s] main_loop_fail[OF f]
      by simp
    then show "exit_status ?r = 1" by simp
  qed
  have c: "(exit_status ?r = 0) = (summary_groups (events ?r) = maps)"
    using summaries_of_run(1)[of w cfg maps s] by simp
  show ?thesis unfolding Let_def using a b c by blast
qed

theorem exit_status_of_run_example:
  "exit_status (main (small_world (data_of [(''uwnetid'', ''carol'')]))
      (small_config [(''u_mygroup'', ''mygroup'')]) [''bob'']) = 0
   \<and> exit_status (main (small_world (data_of [(''uwnetid'', ''carol'')]))
      (small_config [(''u_mygroup'', ''mygroup''), (''u_gone'', ''mygroup''),
         (''u_admins'', ''mygroup'')]) [''bob'']) = 1"
proof -
  let ?w = "small_world (data_of [(''uwnetid'', ''carol'')])"
  let ?m1 = "[(''u_mygroup'', ''mygroup'')]"
  let ?m2 = "[(''u_mygroup'', ''mygroup''), (''u_gone'', ''mygroup''),
         (''u_admins'', ''mygroup'')]"
  let ?r1 = "main_loop ?w (small_config ?m1) ?m1 [''bob'']"
  let ?r2 = "main_loop ?w (small_config ?m2) ?m2 [''bob'']"
  have e1: "events ?r1
      = [Add_member ''mygroup'' ''carol'' (Some (Exception ''no such user'')),
         Print_error_adding ''carol'' ''mygroup'' (Exception ''no such user''),
         Remove_member ''mygroup'' ''bob'' None,
         Print_summary ''u_mygroup'' ''mygroup'' 0 1]"
    by code_simp
  have e2: "events ?r2
      = [Add_member ''mygroup'' ''carol'' (Some (Exception ''no such user'')),
         Print_error_adding ''carol'' ''mygroup'' (Exception ''no such user''),
         Remove_member ''mygroup'' ''bob'' None,
         Print_summary ''u_mygroup'' ''mygroup'' 0 1,
         Print_fatal (LibraryError ''ConnectionError'')]"
    by code_simp
  have t1: "(exit_status ?r1 = 0) = (summary_groups (events ?r1) = ?m1)"
    using exit_status_of_run[of ?w "small_config ?m1" ?m1 "[''bob'']"]
    unfolding Let_def by blast
  have s1: "summary_groups (events ?r1) = ?m1"
    unfolding e1 by simp
  have t2: "(exit_status ?r2 = 0 \<or> exit_status ?r2 = 1)
      \<and> ((exit_status ?r2 = 0) = (summary_groups (events ?r2) = ?m2))"
    using exit_status_of_run[of ?w "small_config ?m2" ?m2 "[''bob'']"]
    unfolding Let_def by blast
  have s2: "summary_groups (events ?r2) \<noteq> ?m2"
    unfolding e2 by simp
  have "exit_status ?r1 = 0 \<and> exit_status ?r2 = 1"
    using t1 s1 t2 s2 by blast
  then show ?thesis
    by (simp add: main_def small_config_def)
qed

subsection \<open>Equal member sets\<close>



subsection \<open>A local group without members\<close>

lemma remove_loop_calls_member:
  "remove_loop w lg uw loc n s = (evs, n', s') \<Longrightarrow> m \<in> set loc \<Longrightarrow> m \<notin> set uw \<Longrightarrow>
     \<exists>r. Remove_member lg m r \<in> set evs"
proof (induction loc arbitrary: n s evs n' s')
  case Nil
  then show ?case by simp
next
  case (Cons x loc)
  then show ?case
    by (fastforce split: prod.splits sum.splits if_splits)
qed

text \<open>
  C10: when the remote members have been fetched and the record that \<^verbatim>\<open>getent\<close> prints
  has an empty member field, the local list is the one-element list of the empty string,
  which never has the same members as the remote list, and the Driver calls RemoveMember
  with the empty string as the member.
\<close>

theorem empty_member_field_removes_empty_name:
  assumes "get_uw_group_members w (gws_base_url cfg) (gws_ca_cert cfg)
             (gws_client_cert cfg) (gws_client_key cfg) u s = (Inr uw, s1)"
    and "subprocess_run w [''getent'', ''group'', lg] s1 = (Inr p, s2)"
    and "index (str_split (CHR '':'') (str_strip (stdout p))) 3 = Inr []"
  shows "retrieve_members w cfg u lg s = (Inr (uw, [[]]), s2)
    \<and> set uw \<noteq> set [[]]
    \<and> (\<exists>outcome. Remove_member lg [] outcome
          \<in> set (events (main_loop w cfg ((u, lg) # rest) s)))"
proof -
  have r: "retrieve_members w cfg u lg s = (Inr (uw, [[]]), s2)"
    using assms
    by (simp add: retrieve_members_def get_local_group_members_def parse_group_record_def)
  have n: "[] \<notin> set uw"
    using get_uw_group_members_matched[OF assms(1), of "[]"] re_match_netid_Nil by blast
  then have d: "set uw \<noteq> set [[]]" by auto
  obtain adds add_count s3 removes remove_count s4 where
    rl: "remove_loop w lg uw [[]] 0 s3 = (removes, remove_count, s4)"
    and sg: "sync_group w u lg uw [[]] s2
         = (adds @ removes @ [Print_summary u lg add_count remove_count], s4)"
    using d by (cases rule: sync_group_cases[of uw "[[]]" w u lg s2]) auto
  obtain outcome where "Remove_member lg [] outcome \<in> set removes"
    using remove_loop_calls_member[OF rl, of "[]"] n by auto
  then have "Remove_member lg [] outcome
       \<in> set (events (main_loop w cfg ((u, lg) # rest) s))"
    unfolding main_loop_ok[OF r sg] by simp
  with r d show ?thesis by blast
qed

theorem empty_member_field_removes_empty_name_example:
  "events (main_loop (small_world (data_of [(''uwnetid'', ''alice'')]))
      (small_config [(''u_mygroup'', ''mygroup'')]) [(''u_mygroup'', ''mygroup'')] [])
   = [Add_member ''mygroup'' ''alice'' None,
      Remove_member ''mygroup'' [] (Some (Exception ''not a member'')),
      Print_error_removing [] ''mygroup'' (Exception ''not a member''),
      Print_summary ''u_mygroup'' ''mygroup'' 1 0]
   \<and> (\<exists>outcome. Remove_member ''mygroup'' [] outcome
         \<in> set (events (main_loop (small_world (data_of [(''uwnetid'', ''alice'')]))
      (small_config [(''u_mygroup'', ''mygroup'')]) [(''u_mygroup'', ''mygroup'')] [])))"
proof -
  let ?w = "small_world (data_of [(''uwnetid'', ''alice'')])"
  let ?c = "small_config [(''u_mygroup'', ''mygroup'')]"
  have a: "get_uw_group_members ?w (gws_base_url ?c) (gws_ca_cert ?c)
             (gws_client_cert ?c) (gws_client_key ?c) ''u_mygroup'' [] = (Inr [''alice''], [])"
    by code_simp
  have b: "subprocess_run ?w [''getent'', ''group'', ''mygroup''] []
      = (Inr (process 0 (''mygroup:x:1001:'' @ [CHR 0x0A]) []), [])"
    by code_simp
  have c: "index (str_split (CHR '':'')
        (str_strip (stdout (process 0 (''mygroup:x:1001:'' @ [CHR 0x0A]) [])))) 3 = Inr []"
    by code_simp
  have e: "events (main_loop ?w ?c [(''u_mygroup'', ''mygroup'')] [])
   = [Add_member ''mygroup'' ''alice'' None,
      Remove_member ''mygroup'' [] (Some (Exception ''not a member'')),
      Print_error_removing [] ''mygroup'' (Exception ''not a member''),
      Print_summary ''u_mygroup'' ''mygroup'' 1 0]"
    by code_simp
  show ?thesis
    using empty_member_field_removes_empty_name[OF a b c, of "[]"] e by simp
qed

end
